theory Spec2Isabelle
  imports Main
begin

unbundle bit_operations_syntax

section \<open>PDF417 scanning decoder (PDFScanningDecoder.cpp)\<close>

text \<open>
  A shallow embedding of the static functions of \<^verbatim>\<open>PDFScanningDecoder.cpp\<close>.
  C++ \<^verbatim>\<open>int\<close> values are HOL integers; the places where C++ arithmetic differs from
  HOL's (\<^verbatim>\<open>/\<close> and \<^verbatim>\<open>%\<close> truncate towards zero, a shift is only defined for a
  count in range) are written out. An out-of-range access of a \<^verbatim>\<open>std::vector\<close> and a
  loop that does not return are the value \<open>None\<close> of an option result.
  Classes that the file only uses (\<^verbatim>\<open>BitMatrix\<close>, \<^verbatim>\<open>ErrorCorrection\<close>,
  \<^verbatim>\<open>DecodedBitStreamParser\<close>, \<^verbatim>\<open>CodewordDecoder\<close>, \<^verbatim>\<open>Common\<close>,
  \<^verbatim>\<open>DetectionResultColumn\<close>) are parameters of the functions that call them.
\<close>

subsection \<open>Status codes and C++ integer arithmetic\<close>

datatype ErrorStatus = NoError | NotFound | FormatError | ChecksumError

definition StatusIsOK :: "ErrorStatus \<Rightarrow> bool" where
  "StatusIsOK status = (status = NoError)"

definition CODEWORD_SKEW_SIZE :: int where
  "CODEWORD_SKEW_SIZE = 2"

definition MAX_ERRORS :: int where
  "MAX_ERRORS = 3"

definition MAX_EC_CODEWORDS :: int where
  "MAX_EC_CODEWORDS = 512"

text \<open>C++ integer division and remainder truncate towards zero.\<close>

definition cpp_div :: "int \<Rightarrow> int \<Rightarrow> int" where
  "cpp_div a b = (if (a < 0) = (b < 0) then \<bar>a\<bar> div \<bar>b\<bar> else - (\<bar>a\<bar> div \<bar>b\<bar>))"


text \<open>An arithmetic result that must fit a 32-bit \<^verbatim>\<open>int\<close>; overflow is undefined.\<close>

definition int32 :: "int \<Rightarrow> int option" where
  "int32 i = (if - (2 ^ 31) \<le> i \<and> i < 2 ^ 31 then Some i else None)"

text \<open>
  \<^verbatim>\<open>a << n\<close> on a 32-bit \<^verbatim>\<open>int\<close>: defined for a non-negative \<open>a\<close>, a count in
  \<open>0..31\<close> and a result that fits; anything else is undefined behaviour (\<open>None\<close>).
\<close>

definition shift_left :: "int \<Rightarrow> int \<Rightarrow> int option" where
  "shift_left a n =
     (if 0 \<le> a \<and> 0 \<le> n \<and> n < 32 \<and> a * 2 ^ nat n < 2 ^ 31
      then Some (a * 2 ^ nat n) else None)"

subsection \<open>Scanning one codeword along an image row\<close>

text \<open>
  \<^verbatim>\<open>BitMatrix\<close> is read through \<^verbatim>\<open>image.get(x, y)\<close> only: the image is that function,
  true for a black pixel.
\<close>

type_synonym BitMatrix = "int \<Rightarrow> int \<Rightarrow> bool"

text \<open>
  The \<^verbatim>\<open>while\<close> loop of \<open>AdjustCodewordStartColumn\<close> (lines 52-58), from the current
  \<open>correctedStartColumn\<close>: \<open>Inl\<close> is the \<^verbatim>\<open>return codewordStartColumn\<close> inside the loop,
  \<open>Inr\<close> the column at which the loop condition fails. The variable \<^verbatim>\<open>increment\<close> is
  \<open>-1\<close> when \<open>leftToRight\<close> holds and \<open>1\<close> otherwise: line 49 sets it so and lines 59-60
  negate both together.
\<close>

function AdjustCodewordStartColumn_while ::
  "BitMatrix \<Rightarrow> int \<Rightarrow> int \<Rightarrow> bool \<Rightarrow> int \<Rightarrow> int \<Rightarrow> int \<Rightarrow> int + int" where
  "AdjustCodewordStartColumn_while img minColumn maxColumn leftToRight codewordStartColumn imageRow
       correctedStartColumn =
     (if (if leftToRight then correctedStartColumn \<ge> minColumn
          else correctedStartColumn < maxColumn) \<and>
         leftToRight = img correctedStartColumn imageRow
      then
        if \<bar>codewordStartColumn - correctedStartColumn\<bar> > CODEWORD_SKEW_SIZE
        then Inl codewordStartColumn
        else AdjustCodewordStartColumn_while img minColumn maxColumn leftToRight
               codewordStartColumn imageRow
               (correctedStartColumn + (if leftToRight then - 1 else 1))
      else Inr correctedStartColumn)"
  by pat_completeness auto
termination
  by (relation "measure (\<lambda>(img, minColumn, maxColumn, leftToRight, codewordStartColumn, imageRow, c).
        nat (CODEWORD_SKEW_SIZE + 1 +
             (if leftToRight then c - codewordStartColumn else codewordStartColumn - c)))")
     (auto simp: CODEWORD_SKEW_SIZE_def)

declare AdjustCodewordStartColumn_while.simps [simp del]

text \<open>The \<^verbatim>\<open>for\<close> loop runs the \<^verbatim>\<open>while\<close> loop twice, the second time in the other direction.\<close>

definition AdjustCodewordStartColumn ::
  "BitMatrix \<Rightarrow> int \<Rightarrow> int \<Rightarrow> bool \<Rightarrow> int \<Rightarrow> int \<Rightarrow> int" where
  "AdjustCodewordStartColumn img minColumn maxColumn leftToRight codewordStartColumn imageRow =
     (case AdjustCodewordStartColumn_while img minColumn maxColumn leftToRight
             codewordStartColumn imageRow codewordStartColumn of
        Inl returned \<Rightarrow> returned
      | Inr corrected1 \<Rightarrow>
          (case AdjustCodewordStartColumn_while img minColumn maxColumn (\<not> leftToRight)
                  codewordStartColumn imageRow corrected1 of
             Inl returned \<Rightarrow> returned
           | Inr corrected2 \<Rightarrow> corrected2))"

text \<open>Modelled from the spec: \<^verbatim>\<open>Common::BARS_IN_MODULE = 8\<close>, a constant of PDFCommon.h.\<close>

definition BARS_IN_MODULE :: nat where
  "BARS_IN_MODULE = 8"

text \<open>
  The loop of \<open>GetModuleBitCount\<close> (lines 72-81) on the state
  \<open>(imageColumn, moduleNumber, previousPixelValue, moduleBitCount)\<close>; it returns the state in
  which the loop condition fails.
\<close>

function GetModuleBitCount_while ::
  "BitMatrix \<Rightarrow> int \<Rightarrow> int \<Rightarrow> bool \<Rightarrow> int \<Rightarrow> int \<times> nat \<times> bool \<times> int list
     \<Rightarrow> int \<times> nat \<times> bool \<times> int list" where
  "GetModuleBitCount_while img minColumn maxColumn leftToRight imageRow
       (imageColumn, moduleNumber, previousPixelValue, moduleBitCount) =
     (if (if leftToRight then imageColumn < maxColumn else imageColumn \<ge> minColumn) \<and>
         moduleNumber < length moduleBitCount
      then
        if img imageColumn imageRow = previousPixelValue
        then GetModuleBitCount_while img minColumn maxColumn leftToRight imageRow
               (imageColumn + (if leftToRight then 1 else - 1), moduleNumber, previousPixelValue,
                moduleBitCount[moduleNumber := moduleBitCount ! moduleNumber + 1])
        else GetModuleBitCount_while img minColumn maxColumn leftToRight imageRow
               (imageColumn, moduleNumber + 1, \<not> previousPixelValue, moduleBitCount)
      else (imageColumn, moduleNumber, previousPixelValue, moduleBitCount))"
  by pat_completeness auto
termination
  by (relation "measure (\<lambda>(img, minColumn, maxColumn, leftToRight, imageRow,
                           imageColumn, moduleNumber, previousPixelValue, moduleBitCount).
        nat (if leftToRight then maxColumn - imageColumn else imageColumn - minColumn + 1) +
        (length moduleBitCount - moduleNumber))")
     auto

declare GetModuleBitCount_while.simps [simp del]

text \<open>The returned flag, with the module bit count the call leaves in its out-parameter.\<close>

definition GetModuleBitCount ::
  "BitMatrix \<Rightarrow> int \<Rightarrow> int \<Rightarrow> bool \<Rightarrow> int \<Rightarrow> int \<Rightarrow> bool \<times> int list" where
  "GetModuleBitCount img minColumn maxColumn leftToRight startColumn imageRow =
     (case GetModuleBitCount_while img minColumn maxColumn leftToRight imageRow
             (startColumn, 0, leftToRight, replicate BARS_IN_MODULE 0) of
        (imageColumn, moduleNumber, previousPixelValue, moduleBitCount) \<Rightarrow>
          (moduleNumber = length moduleBitCount \<or>
             (imageColumn = (if leftToRight then maxColumn else minColumn) \<and>
              moduleNumber = length moduleBitCount - 1),
           moduleBitCount))"







text \<open>\<^verbatim>\<open>Codeword(startX, endX, bucket, value)\<close>, as \<open>DetectCodeword\<close> constructs it.\<close>

record Codeword =
  startX :: int
  endX :: int
  bucket :: int
  "value" :: int







subsection \<open>Barcode metadata of the two row indicator columns\<close>

record BarcodeMetadata =
  columnCount :: int
  rowCount :: int
  errorCorrectionLevel :: int

text \<open>
  \<^verbatim>\<open>DetectionResultColumn::getBarcodeMetadata(out)\<close> is not part of this file: it is the
  parameter \<open>getBarcodeMetadata\<close>, from a column to the metadata it yields (\<open>None\<close> when it
  returns false) and the column as the call leaves it. \<^verbatim>\<open>Nullable<T>\<close> is an option.
  The out-parameter \<^verbatim>\<open>result\<close> is only read by the callers after a true return, so
  \<open>GetBarcodeMetadata\<close> returns the metadata as an option, with both columns.
\<close>

definition GetBarcodeMetadata ::
  "('col \<Rightarrow> BarcodeMetadata option \<times> 'col) \<Rightarrow> 'col option \<Rightarrow> 'col option
     \<Rightarrow> BarcodeMetadata option \<times> 'col option \<times> 'col option" where
  "GetBarcodeMetadata getBarcodeMetadata leftRowIndicatorColumn rightRowIndicatorColumn =
     (let (leftBarcodeMetadata, left') =
            (case leftRowIndicatorColumn of
               None \<Rightarrow> (None, None)
             | Some l \<Rightarrow> (case getBarcodeMetadata l of (m, l') \<Rightarrow> (m, Some l')))
      in case leftBarcodeMetadata of
           None \<Rightarrow>
             (case rightRowIndicatorColumn of
                None \<Rightarrow> (None, left', None)
              | Some r \<Rightarrow> (case getBarcodeMetadata r of (m, r') \<Rightarrow> (m, left', Some r')))
         | Some lm \<Rightarrow>
             (let (rightBarcodeMetadata, right') =
                    (case rightRowIndicatorColumn of
                       None \<Rightarrow> (None, None)
                     | Some r \<Rightarrow> (case getBarcodeMetadata r of (m, r') \<Rightarrow> (m, Some r')))
              in case rightBarcodeMetadata of
                   None \<Rightarrow> (Some lm, left', right')
                 | Some rm \<Rightarrow>
                     if columnCount lm \<noteq> columnCount rm \<and>
                        errorCorrectionLevel lm \<noteq> errorCorrectionLevel rm \<and>
                        rowCount lm \<noteq> rowCount rm
                     then (None, left', right')
                     else (Some lm, left', right')))"

subsection \<open>The barcode matrix and the codeword count\<close>

text \<open>
  Modelled from the spec: \<^verbatim>\<open>BarcodeValue\<close> (PDFBarcodeValue.h is not among the sources) is
  an observation bag; \<open>setValue v\<close> increments the multiplicity of \<open>v\<close>, and \<open>value\<close> returns
  all values sharing the maximum multiplicity (empty, singleton, or ambiguous). The bag is
  the list of the observations; \<open>value\<close> lists the most frequent ones in ascending order.
\<close>

type_synonym BarcodeValue = "int list"

definition setValue :: "BarcodeValue \<Rightarrow> int \<Rightarrow> BarcodeValue" where
  "setValue bv v = bv @ [v]"

definition confidence :: "BarcodeValue \<Rightarrow> int \<Rightarrow> nat" where
  "confidence bv v = count_list bv v"

definition BarcodeValue_value :: "BarcodeValue \<Rightarrow> int list" where
  "BarcodeValue_value bv =
     (let maxConfidence = fold max (map (confidence bv) bv) 0
      in filter (\<lambda>v. confidence bv v = maxConfidence) (sort (remdups bv)))"

text \<open>
  Modelled from the spec: \<^verbatim>\<open>BoundingBox\<close> is \<open>(minX, minY, maxX, maxY)\<close>, and
  \<^verbatim>\<open>DetectionResult\<close> is \<open>(metadata, boundingBox, columns[0..columnCount+1])\<close>
  (PDFBoundingBox.h and PDFDetectionResult.h are not among the sources). The columns are
  of a type \<open>'col\<close> that stands for \<^verbatim>\<open>DetectionResultColumn\<close>.
\<close>

record BoundingBox =
  minX :: int
  minY :: int
  maxX :: int
  maxY :: int

record 'col DetectionResult =
  barcodeMetadata :: BarcodeMetadata
  boundingBox :: "BoundingBox option"
  columns :: "'col option list"

definition barcodeColumnCount :: "'col DetectionResult \<Rightarrow> int" where
  "barcodeColumnCount d = columnCount (barcodeMetadata d)"

definition barcodeRowCount :: "'col DetectionResult \<Rightarrow> int" where
  "barcodeRowCount d = rowCount (barcodeMetadata d)"

definition barcodeECLevel :: "'col DetectionResult \<Rightarrow> int" where
  "barcodeECLevel d = errorCorrectionLevel (barcodeMetadata d)"

definition GetNumberOfECCodeWords :: "int \<Rightarrow> int option" where
  "GetNumberOfECCodeWords barcodeECLevel' = shift_left 2 barcodeECLevel'"

text \<open>
  The local \<^verbatim>\<open>calculatedNumberOfCodewords\<close> of \<open>AdjustCodewordCount\<close>:
  \<^verbatim>\<open>columnCount * rowCount - GetNumberOfECCodeWords(ecLevel)\<close> in 32-bit arithmetic.
\<close>

definition calculatedNumberOfCodewords :: "'col DetectionResult \<Rightarrow> int option" where
  "calculatedNumberOfCodewords d =
     (case int32 (barcodeColumnCount d * barcodeRowCount d) of
        None \<Rightarrow> None
      | Some cells \<Rightarrow>
          (case GetNumberOfECCodeWords (barcodeECLevel d) of
             None \<Rightarrow> None
           | Some ec \<Rightarrow> int32 (cells - ec)))"

text \<open>
  \<open>AdjustCodewordCount\<close> reads and writes \<^verbatim>\<open>barcodeMatrix[0][1]\<close>; the result is the
  returned flag with the matrix as the call leaves it. \<open>maxCodewords\<close> is
  \<^verbatim>\<open>Common::MAX_CODEWORDS_IN_BARCODE\<close>, a constant of PDFCommon.h.
\<close>

definition AdjustCodewordCount ::
  "int \<Rightarrow> 'col DetectionResult \<Rightarrow> BarcodeValue list list \<Rightarrow> (bool \<times> BarcodeValue list list) option" where
  "AdjustCodewordCount maxCodewords detectionResult barcodeMatrix =
     (if length barcodeMatrix < 1 \<or> length (barcodeMatrix ! 0) < 2 then None
      else
        let numberOfCodewords = BarcodeValue_value (barcodeMatrix ! 0 ! 1) in
        case calculatedNumberOfCodewords detectionResult of
          None \<Rightarrow> None
        | Some calculated \<Rightarrow>
            if numberOfCodewords = [] then
              (if calculated < 1 \<or> calculated > maxCodewords then Some (False, barcodeMatrix)
               else Some (True, barcodeMatrix[0 := (barcodeMatrix ! 0)
                                  [1 := setValue (barcodeMatrix ! 0 ! 1) calculated]]))
            else if numberOfCodewords ! 0 \<noteq> calculated then
              Some (True, barcodeMatrix[0 := (barcodeMatrix ! 0)
                                  [1 := setValue (barcodeMatrix ! 0 ! 1) calculated]])
            else Some (True, barcodeMatrix))"

subsection \<open>Error correction and codeword count\<close>

text \<open>
  \<^verbatim>\<open>DecoderResult\<close> is filled by the bit-stream parser (its \<open>content\<close>, opaque here) and
  then by \<^verbatim>\<open>setErrorsCorrected\<close> and \<^verbatim>\<open>setErasures\<close>.
\<close>

record 'p DecoderResult =
  content :: 'p
  errorsCorrected :: int
  erasures :: int

text \<open>
  The two collaborators, as state transformers on a world \<open>'w\<close> that holds whatever they
  touch besides their arguments:
  \<^item> \<^verbatim>\<open>ErrorCorrection::Decode(codewords, numECCodewords, erasures, errorCount)\<close> returns
    success, the codewords and the error count as it leaves them;
  \<^item> \<^verbatim>\<open>DecodedBitStreamParser::Decode(codewords, ecLevel, codec, result)\<close> returns a status
    and the result as it leaves it.
\<close>

type_synonym 'w ErrorCorrection_Decode =
  "int list \<Rightarrow> int \<Rightarrow> int list \<Rightarrow> int \<Rightarrow> 'w \<Rightarrow> bool \<times> int list \<times> int \<times> 'w"

type_synonym ('c, 'p, 'w) DecodedBitStreamParser_Decode =
  "int list \<Rightarrow> int \<Rightarrow> 'c \<Rightarrow> 'p DecoderResult \<Rightarrow> 'w \<Rightarrow> ErrorStatus \<times> 'p DecoderResult \<times> 'w"

definition CorrectErrors ::
  "'w ErrorCorrection_Decode \<Rightarrow> int list \<Rightarrow> int list \<Rightarrow> int \<Rightarrow> int \<Rightarrow> 'w
     \<Rightarrow> ErrorStatus \<times> int list \<times> int \<times> 'w" where
  "CorrectErrors ec codewords erasureList numECCodewords errorCount w =
     (if int (length erasureList) > cpp_div numECCodewords 2 + MAX_ERRORS \<or>
         numECCodewords < 0 \<or>
         numECCodewords > MAX_EC_CODEWORDS
      then (ChecksumError, codewords, errorCount, w)
      else (case ec codewords numECCodewords erasureList errorCount w of
              (ok, codewords', errorCount', w') \<Rightarrow>
                (if ok then NoError else ChecksumError, codewords', errorCount', w')))"

definition VerifyCodewordCount :: "int list \<Rightarrow> int \<Rightarrow> ErrorStatus \<times> int list" where
  "VerifyCodewordCount codewords numECCodewords =
     (if length codewords < 4 then (FormatError, codewords)
      else
        let numberOfCodewords = codewords ! 0 in
        if numberOfCodewords > int (length codewords) then (FormatError, codewords)
        else if numberOfCodewords = 0 then
          (if numECCodewords < int (length codewords)
           then (NoError, codewords[0 := int (length codewords) - numECCodewords])
           else (FormatError, codewords))
        else (NoError, codewords))"

definition DecodeCodewords ::
  "'w ErrorCorrection_Decode \<Rightarrow> ('c, 'p, 'w) DecodedBitStreamParser_Decode
     \<Rightarrow> int \<Rightarrow> int list \<Rightarrow> 'c \<Rightarrow> int list \<Rightarrow> 'p DecoderResult \<times> 'w
     \<Rightarrow> (ErrorStatus \<times> int list \<times> 'p DecoderResult \<times> 'w) option" where
  "DecodeCodewords ec parser ecLevel erasureList codec codewords rw =
     (case rw of (result, w) \<Rightarrow>
      if codewords = [] then Some (FormatError, codewords, result, w)
      else
        case shift_left 1 (ecLevel + 1) of
          None \<Rightarrow> None
        | Some numECCodewords \<Rightarrow>
            (case CorrectErrors ec codewords erasureList numECCodewords 0 w of
               (status, codewords1, correctedErrorsCount, w1) \<Rightarrow>
                 if StatusIsOK status then
                   (case VerifyCodewordCount codewords1 numECCodewords of
                      (status2, codewords2) \<Rightarrow>
                        if StatusIsOK status2 then
                          (case parser codewords2 ecLevel codec result w1 of
                             (status3, result3, w3) \<Rightarrow>
                               if StatusIsOK status3
                               then Some (NoError, codewords2,
                                          result3\<lparr>errorsCorrected := correctedErrorsCount,
                                                  erasures := int (length erasureList)\<rparr>, w3)
                               else Some (status3, codewords2, result3, w3))
                        else Some (status2, codewords2, result, w1))
                 else Some (status, codewords1, result, w1)))"

subsection \<open>Ambiguous codewords\<close>

text \<open>
  The first \<^verbatim>\<open>for\<close> loop of \<open>CreateDecoderResultFromAmbiguousValues\<close> (lines 465-467), from
  index \<open>i\<close>: it writes the chosen candidate of every ambiguous cell into the codewords.
\<close>

function patch_codewords :: "int list \<Rightarrow> int list list \<Rightarrow> int list \<Rightarrow> nat \<Rightarrow> int list \<Rightarrow> int list option" where
  "patch_codewords ambiguousIndexes ambiguousIndexValues ambiguousIndexCount i codewords =
     (if i < length ambiguousIndexCount then
        (if i < length ambiguousIndexes \<and> i < length ambiguousIndexValues \<and>
            0 \<le> ambiguousIndexCount ! i \<and>
            nat (ambiguousIndexCount ! i) < length (ambiguousIndexValues ! i) \<and>
            0 \<le> ambiguousIndexes ! i \<and> nat (ambiguousIndexes ! i) < length codewords
         then patch_codewords ambiguousIndexes ambiguousIndexValues ambiguousIndexCount (i + 1)
                (codewords[nat (ambiguousIndexes ! i) :=
                             ambiguousIndexValues ! i ! nat (ambiguousIndexCount ! i)])
         else None)
      else Some codewords)"
  by pat_completeness auto
termination
  by (relation "measure (\<lambda>(ambiguousIndexes, ambiguousIndexValues, ambiguousIndexCount, i, codewords).
        length ambiguousIndexCount - i)") auto

declare patch_codewords.simps [simp del]

text \<open>
  The second \<^verbatim>\<open>for\<close> loop (lines 476-487), from index \<open>i\<close>: \<open>Inr\<close> is the counter after the
  \<^verbatim>\<open>break\<close> (or after the last index), \<open>Inl\<close> the status returned from inside the loop.
\<close>

function next_combination :: "int list list \<Rightarrow> nat \<Rightarrow> int list \<Rightarrow> (ErrorStatus + int list) option" where
  "next_combination ambiguousIndexValues i ambiguousIndexCount =
     (if i < length ambiguousIndexCount then
        (if i < length ambiguousIndexValues then
           (if ambiguousIndexCount ! i < int (length (ambiguousIndexValues ! i)) - 1
            then Some (Inr (ambiguousIndexCount[i := ambiguousIndexCount ! i + 1]))
            else if i = length ambiguousIndexCount - 1 then Some (Inl ChecksumError)
            else next_combination ambiguousIndexValues (i + 1) (ambiguousIndexCount[i := 0]))
         else None)
      else Some (Inr ambiguousIndexCount))"
  by pat_completeness auto
termination
  by (relation "measure (\<lambda>(ambiguousIndexValues, i, ambiguousIndexCount).
        length ambiguousIndexCount - i)") auto

declare next_combination.simps [simp del]

text \<open>
  The \<^verbatim>\<open>while (tries-- > 0)\<close> loop, with the decoder it calls as the parameter \<open>decode\<close>: a
  function of the codewords and of the state \<open>'s\<close> the call acts on (the result object and
  the collaborators' world), to the status, the codewords and the state it leaves.
\<close>

fun CreateDecoderResultFromAmbiguousValues_while ::
  "(int list \<Rightarrow> 's \<Rightarrow> (ErrorStatus \<times> int list \<times> 's) option) \<Rightarrow> int list \<Rightarrow> int list list
     \<Rightarrow> nat \<Rightarrow> int list \<Rightarrow> int list \<Rightarrow> 's \<Rightarrow> (ErrorStatus \<times> int list \<times> 's) option" where
  "CreateDecoderResultFromAmbiguousValues_while decode ambiguousIndexes ambiguousIndexValues
       0 ambiguousIndexCount codewords s = Some (ChecksumError, codewords, s)"
| "CreateDecoderResultFromAmbiguousValues_while decode ambiguousIndexes ambiguousIndexValues
       (Suc tries) ambiguousIndexCount codewords s =
     (case patch_codewords ambiguousIndexes ambiguousIndexValues ambiguousIndexCount 0 codewords of
        None \<Rightarrow> None
      | Some codewords1 \<Rightarrow>
          (case decode codewords1 s of
             None \<Rightarrow> None
           | Some (status, codewords2, s2) \<Rightarrow>
               if status \<noteq> ChecksumError then Some (status, codewords2, s2)
               else if ambiguousIndexCount = [] then Some (ChecksumError, codewords2, s2)
               else
                 (case next_combination ambiguousIndexValues 0 ambiguousIndexCount of
                    None \<Rightarrow> None
                  | Some (Inl returned) \<Rightarrow> Some (returned, codewords2, s2)
                  | Some (Inr ambiguousIndexCount') \<Rightarrow>
                      CreateDecoderResultFromAmbiguousValues_while decode ambiguousIndexes
                        ambiguousIndexValues tries ambiguousIndexCount' codewords2 s2)))"

definition CreateDecoderResultFromAmbiguousValues_with ::
  "(int list \<Rightarrow> 's \<Rightarrow> (ErrorStatus \<times> int list \<times> 's) option) \<Rightarrow> int list \<Rightarrow> int list \<Rightarrow> int list list
     \<Rightarrow> 's \<Rightarrow> (ErrorStatus \<times> int list \<times> 's) option" where
  "CreateDecoderResultFromAmbiguousValues_with decode codewords ambiguousIndexes ambiguousIndexValues s =
     CreateDecoderResultFromAmbiguousValues_while decode ambiguousIndexes ambiguousIndexValues
       100 (replicate (length ambiguousIndexes) 0) codewords s"

definition CreateDecoderResultFromAmbiguousValues ::
  "'w ErrorCorrection_Decode \<Rightarrow> ('c, 'p, 'w) DecodedBitStreamParser_Decode
     \<Rightarrow> int \<Rightarrow> int list \<Rightarrow> int list \<Rightarrow> int list \<Rightarrow> int list list \<Rightarrow> 'c \<Rightarrow> 'p DecoderResult \<times> 'w
     \<Rightarrow> (ErrorStatus \<times> int list \<times> 'p DecoderResult \<times> 'w) option" where
  "CreateDecoderResultFromAmbiguousValues ec parser ecLevel codewords erasureArray
       ambiguousIndexes ambiguousIndexValues codec rw =
     CreateDecoderResultFromAmbiguousValues_with
       (DecodeCodewords ec parser ecLevel erasureArray codec)
       codewords ambiguousIndexes ambiguousIndexValues rw"

text \<open>
  A decoder that also records its calls: the codewords it was given and the status it
  returned, in call order.
\<close>

definition traced ::
  "(int list \<Rightarrow> 's \<Rightarrow> (ErrorStatus \<times> int list \<times> 's) option)
     \<Rightarrow> int list \<Rightarrow> 's \<times> (int list \<times> ErrorStatus) list
     \<Rightarrow> (ErrorStatus \<times> int list \<times> 's \<times> (int list \<times> ErrorStatus) list) option" where
  "traced decode codewords st =
     (case st of (s, calls) \<Rightarrow>
        (case decode codewords s of
           None \<Rightarrow> None
         | Some (status, codewords', s') \<Rightarrow>
             Some (status, codewords', s', calls @ [(codewords, status)])))"

text \<open>
  The \<open>k\<close>-th combination of a mixed-radix counter with the radices \<open>ns\<close>, position 0 the
  least significant.
\<close>

fun mixed_radix :: "nat list \<Rightarrow> nat \<Rightarrow> int list" where
  "mixed_radix [] k = []"
| "mixed_radix (n # ns) k = int (k mod n) # mixed_radix ns (k div n)"

text \<open>
  What a list of recorded calls enumerates, from combination \<open>k\<close> on: the \<open>i\<close>-th call was
  given codewords that carry, at every ambiguous index, the candidate chosen by
  combination \<open>k + i\<close>; every call but the last returned \<open>ChecksumError\<close>; the status is the
  last call's, and if that is \<open>ChecksumError\<close> the combinations are exhausted.
\<close>

definition calls_enumerate ::
  "int list \<Rightarrow> int list list \<Rightarrow> nat \<Rightarrow> (int list \<times> ErrorStatus) list \<Rightarrow> ErrorStatus \<Rightarrow> bool" where
  "calls_enumerate ambiguousIndexes ambiguousIndexValues k calls status =
     (1 \<le> length calls \<and>
      k + length calls \<le> prod_list (map length ambiguousIndexValues) \<and>
      (\<forall>i < length calls. \<forall>j < length ambiguousIndexes.
         fst (calls ! i) ! nat (ambiguousIndexes ! j) =
           ambiguousIndexValues ! j ! nat (mixed_radix (map length ambiguousIndexValues) (k + i) ! j)) \<and>
      (\<forall>i. Suc i < length calls \<longrightarrow> snd (calls ! i) = ChecksumError) \<and>
      status = snd (last calls) \<and>
      (status = ChecksumError \<longrightarrow> k + length calls = prod_list (map length ambiguousIndexValues)))"

section \<open>Properties\<close>

subsection \<open>AdjustCodewordStartColumn\<close>

lemma AdjustCodewordStartColumn_while_bound:
  "\<bar>codewordStartColumn - c\<bar> \<le> 3 \<Longrightarrow>
   (case AdjustCodewordStartColumn_while img minColumn maxColumn leftToRight codewordStartColumn imageRow c of
      Inl x \<Rightarrow> x = codewordStartColumn | Inr x \<Rightarrow> \<bar>codewordStartColumn - x\<bar> \<le> 3)"
proof (induction img minColumn maxColumn leftToRight codewordStartColumn imageRow c
    rule: AdjustCodewordStartColumn_while.induct)
  case (1 img minColumn maxColumn leftToRight codewordStartColumn imageRow c)
  show ?case
    using "1.prems" "1.IH"
    by (subst AdjustCodewordStartColumn_while.simps)
      (auto simp: CODEWORD_SKEW_SIZE_def split: if_splits sum.splits)
qed

lemma AdjustCodewordStartColumn_within_3:
  "\<bar>codewordStartColumn -
      AdjustCodewordStartColumn img minColumn maxColumn leftToRight codewordStartColumn imageRow\<bar> \<le> 3"
proof (cases "AdjustCodewordStartColumn_while img minColumn maxColumn leftToRight
             codewordStartColumn imageRow codewordStartColumn")
  case (Inl r)
  then show ?thesis
    using AdjustCodewordStartColumn_while_bound
      [of codewordStartColumn codewordStartColumn img minColumn maxColumn leftToRight imageRow]
    by (simp add: AdjustCodewordStartColumn_def)
next
  case (Inr c1)
  then have c1: "\<bar>codewordStartColumn - c1\<bar> \<le> 3"
    using AdjustCodewordStartColumn_while_bound
      [of codewordStartColumn codewordStartColumn img minColumn maxColumn leftToRight imageRow]
    by simp
  show ?thesis
    using AdjustCodewordStartColumn_while_bound [OF c1, of img minColumn maxColumn "\<not> leftToRight" imageRow]
    by (simp add: AdjustCodewordStartColumn_def Inr split: sum.splits)
qed

text \<open>
  C8. The returned column can differ from \<open>codewordStartColumn\<close> by 3, one more than
  \<open>CODEWORD_SKEW_SIZE = 2\<close>: the deviation is tested before the column is advanced, never
  after. In a left-to-right adjustment from column 10, with white pixels at columns 10 to
  12 and a black pixel at column 13, the first pass stops at once (column 10 is white),
  the second pass advances over the white columns 10, 11 and 12 (deviations 0, 1 and 2
  pass the test) and stops at the black column 13, which is returned.
\<close>

theorem AdjustCodewordStartColumn_skew_3:
  "AdjustCodewordStartColumn (\<lambda>x y. x = 13) 0 20 True 10 0 = 13"
  by (simp add: AdjustCodewordStartColumn_def AdjustCodewordStartColumn_while.simps CODEWORD_SKEW_SIZE_def)

subsection \<open>GetModuleBitCount\<close>

lemma GetModuleBitCount_while_exit:
  "GetModuleBitCount_while img minColumn maxColumn leftToRight imageRow s = (c, n, p, m) \<Longrightarrow>
   \<not> ((if leftToRight then c < maxColumn else c \<ge> minColumn) \<and> n < length m)"
proof (induction img minColumn maxColumn leftToRight imageRow s
    rule: GetModuleBitCount_while.induct)
  case (1 img minColumn maxColumn leftToRight imageRow imageColumn moduleNumber previousPixelValue moduleBitCount)
  show ?case
    using "1.prems" "1.IH"
    by (subst (asm) GetModuleBitCount_while.simps) (simp split: if_splits)
qed

lemma GetModuleBitCount_while_length:
  "GetModuleBitCount_while img minColumn maxColumn leftToRight imageRow (c0, n0, p0, m0) = (c, n, p, m) \<Longrightarrow>
   length m = length m0"
proof (induction img minColumn maxColumn leftToRight imageRow "(c0, n0, p0, m0)" arbitrary: c0 n0 p0 m0
    rule: GetModuleBitCount_while.induct)
  case (1 img minColumn maxColumn leftToRight imageRow imageColumn moduleNumber previousPixelValue moduleBitCount)
  show ?case
    using "1.prems" "1.hyps"
    by (subst (asm) GetModuleBitCount_while.simps) (auto split: if_splits)
qed





lemma GetModuleBitCount_rtl:
  assumes "GetModuleBitCount_while img minColumn maxColumn False imageRow
             (startColumn, 0, False, replicate BARS_IN_MODULE 0) = (c, n, p, m)"
  shows "fst (GetModuleBitCount img minColumn maxColumn False startColumn imageRow) \<longleftrightarrow> n = 8"
proof -
  have len: "length m = 8"
    using GetModuleBitCount_while_length [OF assms] by (simp add: BARS_IN_MODULE_def)
  from GetModuleBitCount_while_exit [OF assms] have "c < minColumn \<or> \<not> n < 8"
    using len by auto
  then show ?thesis
    using len by (auto simp: GetModuleBitCount_def assms)
qed

text \<open>
  C6. A right-to-left scan that reaches the boundary column \<open>minColumn\<close> with exactly 7
  modules filled fails: the loop runs while \<open>imageColumn >= minColumn\<close>, so it leaves the
  boundary with \<open>imageColumn = minColumn - 1\<close>, and the test \<open>imageColumn == minColumn\<close> of
  the return statement does not hold. Below, black pixels stand at columns 8, 6, 4 and 2
  and the scan goes from column 9 down to \<open>minColumn = 2\<close>: seven modules are complete and
  the eighth holds the boundary pixel when the loop ends at column 1, and the call returns
  false. The left-to-right scan of the same row from column 2 up to \<open>maxColumn = 10\<close> ends
  at column 10 with 7 modules and returns true.
\<close>

theorem GetModuleBitCount_rtl_boundary:
  "GetModuleBitCount_while (\<lambda>x y. x \<in> {2, 4, 6, 8}) 2 12 False 0 (9, 0, False, replicate BARS_IN_MODULE 0)
     = (1, 7, True, [1, 1, 1, 1, 1, 1, 1, 1])
   \<and> GetModuleBitCount (\<lambda>x y. x \<in> {2, 4, 6, 8}) 2 12 False 9 0 = (False, [1, 1, 1, 1, 1, 1, 1, 1])
   \<and> GetModuleBitCount (\<lambda>x y. x \<in> {2, 4, 6, 8}) 0 10 True 2 0 = (True, [1, 1, 1, 1, 1, 1, 1, 1])"
  by (simp add: GetModuleBitCount_def GetModuleBitCount_while.simps BARS_IN_MODULE_def eval_nat_numeral)

subsection \<open>GetBitCountForCodeword and DetectCodeword\<close>

















subsection \<open>GetBarcodeMetadata\<close>

text \<open>
  C1. When the left and the right row indicator column both yield metadata,
  \<open>GetBarcodeMetadata\<close> fails exactly when \<open>columnCount\<close>, \<open>errorCorrectionLevel\<close> and
  \<open>rowCount\<close> all three differ between left and right; whenever one of the three agrees
  it succeeds with the left metadata, unchanged.
\<close>

theorem GetBarcodeMetadata_both:
  assumes "getBarcodeMetadata l = (Some lm, l')" and "getBarcodeMetadata r = (Some rm, r')"
  shows "(fst (GetBarcodeMetadata getBarcodeMetadata (Some l) (Some r)) = None \<longleftrightarrow>
            columnCount lm \<noteq> columnCount rm \<and>
            errorCorrectionLevel lm \<noteq> errorCorrectionLevel rm \<and>
            rowCount lm \<noteq> rowCount rm)
       \<and> (columnCount lm = columnCount rm \<or> errorCorrectionLevel lm = errorCorrectionLevel rm \<or>
            rowCount lm = rowCount rm \<longrightarrow>
          GetBarcodeMetadata getBarcodeMetadata (Some l) (Some r) = (Some lm, Some l', Some r'))"
  using assms by (simp add: GetBarcodeMetadata_def)

text \<open>
  Two columns that are their own metadata: they agree on the row count only, and then on
  nothing.
\<close>

theorem GetBarcodeMetadata_both_witness:
  "GetBarcodeMetadata (\<lambda>c. (Some c, c))
      (Some \<lparr>columnCount = 3, rowCount = 10, errorCorrectionLevel = 2\<rparr>)
      (Some \<lparr>columnCount = 4, rowCount = 10, errorCorrectionLevel = 5\<rparr>)
    = (Some \<lparr>columnCount = 3, rowCount = 10, errorCorrectionLevel = 2\<rparr>,
       Some \<lparr>columnCount = 3, rowCount = 10, errorCorrectionLevel = 2\<rparr>,
       Some \<lparr>columnCount = 4, rowCount = 10, errorCorrectionLevel = 5\<rparr>)
   \<and> fst (GetBarcodeMetadata (\<lambda>c. (Some c, c))
      (Some \<lparr>columnCount = 3, rowCount = 10, errorCorrectionLevel = 2\<rparr>)
      (Some \<lparr>columnCount = 4, rowCount = 11, errorCorrectionLevel = 5\<rparr>)) = None"
  using
    GetBarcodeMetadata_both [where getBarcodeMetadata = "\<lambda>c. (Some c, c)"
      and l = "\<lparr>columnCount = 3, rowCount = 10, errorCorrectionLevel = 2\<rparr>"
      and r = "\<lparr>columnCount = 4, rowCount = 10, errorCorrectionLevel = 5\<rparr>", OF refl refl]
    GetBarcodeMetadata_both [where getBarcodeMetadata = "\<lambda>c. (Some c, c)"
      and l = "\<lparr>columnCount = 3, rowCount = 10, errorCorrectionLevel = 2\<rparr>"
      and r = "\<lparr>columnCount = 4, rowCount = 11, errorCorrectionLevel = 5\<rparr>", OF refl refl]
  by simp

subsection \<open>AdjustCodewordCount\<close>

lemmas AdjustCodewordCount_eval =
  AdjustCodewordCount_def calculatedNumberOfCodewords_def BarcodeValue_value_def confidence_def
  barcodeColumnCount_def barcodeRowCount_def barcodeECLevel_def GetNumberOfECCodeWords_def
  shift_left_def int32_def setValue_def

text \<open>
  C2 as stated (failure whenever the calculated count is outside
  \<open>[1, MAX_CODEWORDS_IN_BARCODE]\<close>, whether or not cell (0, 1) holds a value) does not hold:
  with 1 column, 3 rows and error correction level 1 the calculated count is
  \<open>1 * 3 - (2 << 1) = -1\<close>, cell (0, 1) holds the observation 5, and the call returns true
  after adding \<open>-1\<close> to the cell.
\<close>

theorem AdjustCodewordCount_counterexample:
  "calculatedNumberOfCodewords
      \<lparr>barcodeMetadata = \<lparr>columnCount = 1, rowCount = 3, errorCorrectionLevel = 1\<rparr>,
        boundingBox = None, columns = ([] :: unit option list)\<rparr> = Some (- 1)
   \<and> BarcodeValue_value ([[[], [5], []], [[], [], []], [[], [], []]] ! 0 ! 1) = [5]
   \<and> AdjustCodewordCount 928
      \<lparr>barcodeMetadata = \<lparr>columnCount = 1, rowCount = 3, errorCorrectionLevel = 1\<rparr>,
        boundingBox = None, columns = ([] :: unit option list)\<rparr>
      [[[], [5], []], [[], [], []], [[], [], []]]
     = Some (True, [[[], [5, - 1], []], [[], [], []], [[], [], []]])"
  by (simp add: AdjustCodewordCount_eval)

text \<open>
  C2, amended. On a matrix that has cell (0, 1), and with a calculated count that fits
  an \<^verbatim>\<open>int\<close>, \<open>AdjustCodewordCount\<close> returns false exactly when cell (0, 1) holds no
  value and the calculated count lies outside \<open>[1, MAX_CODEWORDS_IN_BARCODE]\<close>; when the cell
  already holds a value it returns true whatever the calculated count is.
\<close>

theorem AdjustCodewordCount_amended:
  assumes "1 \<le> length barcodeMatrix" and "2 \<le> length (barcodeMatrix ! 0)"
    and "calculatedNumberOfCodewords detectionResult = Some calculated"
  shows "\<exists>barcodeMatrix'.
           AdjustCodewordCount maxCodewords detectionResult barcodeMatrix =
             Some (\<not> (BarcodeValue_value (barcodeMatrix ! 0 ! 1) = [] \<and>
                       (calculated < 1 \<or> maxCodewords < calculated)), barcodeMatrix')"
  using assms by (auto simp: AdjustCodewordCount_def Let_def)

theorem AdjustCodewordCount_amended_witness:
  "(\<exists>barcodeMatrix'.
      AdjustCodewordCount 928
        \<lparr>barcodeMetadata = \<lparr>columnCount = 1, rowCount = 3, errorCorrectionLevel = 1\<rparr>,
        boundingBox = None, columns = ([] :: unit option list)\<rparr>
        [[[], [], []], [[], [], []], [[], [], []]] = Some (False, barcodeMatrix'))
   \<and> (\<exists>barcodeMatrix'.
      AdjustCodewordCount 928
        \<lparr>barcodeMetadata = \<lparr>columnCount = 1, rowCount = 3, errorCorrectionLevel = 1\<rparr>,
        boundingBox = None, columns = ([] :: unit option list)\<rparr>
        [[[], [5], []], [[], [], []], [[], [], []]] = Some (True, barcodeMatrix'))"
proof -
  have c: "calculatedNumberOfCodewords
      \<lparr>barcodeMetadata = \<lparr>columnCount = 1, rowCount = 3, errorCorrectionLevel = 1\<rparr>,
        boundingBox = None, columns = ([] :: unit option list)\<rparr> = Some (- 1)"
    by (simp add: AdjustCodewordCount_eval)
  have v0: "BarcodeValue_value ([[[], [], []], [[], [], []], [[], [], []]] ! 0 ! 1) = []"
    by (simp add: BarcodeValue_value_def)
  have v1: "BarcodeValue_value ([[[], [5], []], [[], [], []], [[], [], []]] ! 0 ! 1) \<noteq> []"
    by (simp add: BarcodeValue_value_def confidence_def)
  show ?thesis
    using
      AdjustCodewordCount_amended [where barcodeMatrix = "[[[], [], []], [[], [], []], [[], [], []]]"
        and maxCodewords = 928, OF _ _ c]
      AdjustCodewordCount_amended [where barcodeMatrix = "[[[], [5], []], [[], [], []], [[], [], []]]"
        and maxCodewords = 928, OF _ _ c]
      v0 v1
    by simp
qed

subsection \<open>CorrectErrors\<close>

lemma CorrectErrors_guard_iff:
  "(int (length erasureList) > cpp_div numECCodewords 2 + MAX_ERRORS \<or> numECCodewords < 0 \<or>
      numECCodewords > MAX_EC_CODEWORDS) \<longleftrightarrow>
   (int (length erasureList) > numECCodewords div 2 + 3 \<or> numECCodewords < 0 \<or>
      numECCodewords > 512)"
  by (cases "numECCodewords < 0") (simp_all add: cpp_div_def MAX_ERRORS_def MAX_EC_CODEWORDS_def)

text \<open>
  C3. Whenever the erasure count exceeds \<open>numECCodewords/2 + 3\<close>, or \<open>numECCodewords\<close> is
  negative or exceeds 512, \<open>CorrectErrors\<close> returns \<open>ChecksumError\<close> without invoking the
  Reed-Solomon decoder: for every decoder \<open>ec\<close> the codewords, the error count and the
  world the decoder acts on are returned as they were given. Otherwise the decoder is
  invoked once on the arguments, the status is \<open>NoError\<close> exactly when it reports success
  (and \<open>ChecksumError\<close> exactly when it does not), and codewords, error count and world are
  the decoder's.
\<close>

theorem CorrectErrors_spec:
  "(int (length erasureList) > numECCodewords div 2 + 3 \<or> numECCodewords < 0 \<or>
      numECCodewords > 512 \<longrightarrow>
      CorrectErrors ec codewords erasureList numECCodewords errorCount w =
        (ChecksumError, codewords, errorCount, w))
   \<and> (\<not> (int (length erasureList) > numECCodewords div 2 + 3 \<or> numECCodewords < 0 \<or>
           numECCodewords > 512) \<longrightarrow>
        (fst (CorrectErrors ec codewords erasureList numECCodewords errorCount w) = NoError \<longleftrightarrow>
           fst (ec codewords numECCodewords erasureList errorCount w))
        \<and> (fst (CorrectErrors ec codewords erasureList numECCodewords errorCount w) = ChecksumError \<longleftrightarrow>
           \<not> fst (ec codewords numECCodewords erasureList errorCount w))
        \<and> snd (CorrectErrors ec codewords erasureList numECCodewords errorCount w) =
            snd (ec codewords numECCodewords erasureList errorCount w))"
  unfolding CorrectErrors_def CorrectErrors_guard_iff
  by (simp split: prod.splits)

theorem CorrectErrors_spec_witness:
  "CorrectErrors (\<lambda>cw n er cnt w. (True, cw, cnt + 1, Suc w))
       [1, 2, 3, 4, 5, 6] [0, 1, 2, 3, 4, 5] 4 0 (0::nat)
     = (ChecksumError, [1, 2, 3, 4, 5, 6], 0, 0)
   \<and> CorrectErrors (\<lambda>cw n er cnt w. (True, cw, cnt + 1, Suc w))
       [1, 2, 3, 4, 5, 6] [0] 4 0 (0::nat)
     = (NoError, [1, 2, 3, 4, 5, 6], 1, 1)"
  using
    CorrectErrors_spec [where erasureList = "[0, 1, 2, 3, 4, 5]" and numECCodewords = 4
      and ec = "\<lambda>cw n er cnt w. (True, cw, cnt + 1, Suc w)" and codewords = "[1, 2, 3, 4, 5, 6]"
      and errorCount = 0 and w = "0::nat"]
    CorrectErrors_spec [where erasureList = "[0]" and numECCodewords = 4
      and ec = "\<lambda>cw n er cnt w. (True, cw, cnt + 1, Suc w)" and codewords = "[1, 2, 3, 4, 5, 6]"
      and errorCount = 0 and w = "0::nat"]
  by (simp add: prod_eq_iff)

subsection \<open>VerifyCodewordCount\<close>

text \<open>
  C5. \<open>VerifyCodewordCount\<close> returns \<open>FormatError\<close> exactly when the vector has fewer than
  4 elements, or \<open>codewords[0]\<close> exceeds the vector length, or \<open>codewords[0]\<close> is 0 while
  \<open>numECCodewords\<close> is not smaller than the length. When \<open>codewords[0]\<close> is 0 and
  \<open>numECCodewords\<close> is smaller than the length, it sets \<open>codewords[0]\<close> to
  \<open>length - numECCodewords\<close> and returns \<open>NoError\<close>; in every other \<open>NoError\<close> case the
  vector is unchanged. (It never returns another status.)
\<close>

theorem VerifyCodewordCount_spec:
  "(fst (VerifyCodewordCount codewords numECCodewords) = FormatError \<longleftrightarrow>
      length codewords < 4 \<or> codewords ! 0 > int (length codewords) \<or>
      (codewords ! 0 = 0 \<and> \<not> numECCodewords < int (length codewords)))
   \<and> (fst (VerifyCodewordCount codewords numECCodewords) \<noteq> FormatError \<longrightarrow>
        fst (VerifyCodewordCount codewords numECCodewords) = NoError)
   \<and> (4 \<le> length codewords \<and> codewords ! 0 = 0 \<and> numECCodewords < int (length codewords) \<longrightarrow>
        VerifyCodewordCount codewords numECCodewords =
          (NoError, codewords[0 := int (length codewords) - numECCodewords]))
   \<and> (fst (VerifyCodewordCount codewords numECCodewords) = NoError \<and> codewords ! 0 \<noteq> 0 \<longrightarrow>
        snd (VerifyCodewordCount codewords numECCodewords) = codewords)"
  by (simp add: VerifyCodewordCount_def Let_def)

theorem VerifyCodewordCount_spec_witness:
  "VerifyCodewordCount [0, 5, 6, 7, 8, 9] 2 = (NoError, [4, 5, 6, 7, 8, 9])
   \<and> fst (VerifyCodewordCount [7, 5, 6, 7, 8, 9] 2) = FormatError
   \<and> VerifyCodewordCount [3, 5, 6, 7, 8, 9] 2 = (NoError, [3, 5, 6, 7, 8, 9])"
  using VerifyCodewordCount_spec [of "[0, 5, 6, 7, 8, 9]" 2]
    VerifyCodewordCount_spec [of "[7, 5, 6, 7, 8, 9]" 2]
    VerifyCodewordCount_spec [of "[3, 5, 6, 7, 8, 9]" 2]
  by (simp add: prod_eq_iff)

subsection \<open>DecodeCodewords\<close>

text \<open>
  C10. For every \<open>ecLevel\<close>, erasure list and codec, \<open>DecodeCodewords\<close> applied to an empty
  codewords vector returns \<open>FormatError\<close> before any error correction or bit-stream
  parsing: for every pair of collaborators the result object and the world they act on
  come back unchanged.
\<close>

theorem DecodeCodewords_empty:
  "DecodeCodewords ec parser ecLevel erasureList codec [] (result, w) =
     Some (FormatError, [], result, w)"
  by (simp add: DecodeCodewords_def)

subsection \<open>CreateDecoderResultFromAmbiguousValues\<close>

lemma length_mixed_radix [simp]: "length (mixed_radix ns k) = length ns"
  by (induction ns arbitrary: k) auto

lemma mixed_radix_digit:
  "j < length ns \<Longrightarrow> \<forall>n \<in> set ns. 0 < n \<Longrightarrow>
   0 \<le> mixed_radix ns k ! j \<and> nat (mixed_radix ns k ! j) < ns ! j"
proof (induction ns arbitrary: k j)
  case Nil
  then show ?case by simp
next
  case (Cons n ns)
  then show ?case by (cases j) auto
qed

lemma mixed_radix_0: "mixed_radix ns 0 = replicate (length ns) 0"
  by (induction ns) auto

lemma mixed_radix_inj:
  "mixed_radix ns k = mixed_radix ns k' \<Longrightarrow> k < prod_list ns \<Longrightarrow> k' < prod_list ns \<Longrightarrow> k = k'"
proof (induction ns arbitrary: k k')
  case Nil
  then show ?case by simp
next
  case (Cons n ns)
  from Cons.prems have n: "0 < n" by (cases n) auto
  from Cons.prems have m: "k mod n = k' mod n" and r: "mixed_radix ns (k div n) = mixed_radix ns (k' div n)"
    by auto
  have "k div n < prod_list ns" "k' div n < prod_list ns"
    using Cons.prems(2,3) n by (simp_all add: div_less_iff_less_mult mult.commute)
  from Cons.IH [OF r this] have "k div n = k' div n" .
  with m show ?case by (metis div_mult_mod_eq)
qed

lemma patch_codewords_spec:
  assumes "length cnt = length idxs" and "length vals = length idxs"
    and "\<forall>j < length idxs. 0 \<le> cnt ! j \<and> nat (cnt ! j) < length (vals ! j)"
    and "distinct idxs"
  shows "i \<le> length idxs \<Longrightarrow>
    \<forall>j < length idxs. 0 \<le> idxs ! j \<and> nat (idxs ! j) < length cw \<Longrightarrow>
    \<forall>j < i. cw ! nat (idxs ! j) = vals ! j ! nat (cnt ! j) \<Longrightarrow>
    \<exists>cw'. patch_codewords idxs vals cnt i cw = Some cw' \<and> length cw' = length cw \<and>
      (\<forall>j < length idxs. cw' ! nat (idxs ! j) = vals ! j ! nat (cnt ! j))"
  using assms
proof (induction idxs vals cnt i cw rule: patch_codewords.induct)
  case (1 idxs vals cnt i cw)
  show ?case
  proof (cases "i < length cnt")
    case False
    then have "i = length idxs" using "1.prems" by simp
    then show ?thesis
      using "1.prems" False by (subst patch_codewords.simps) simp
  next
    case True
    then have i: "i < length idxs" using "1.prems" by simp
    let ?v = "vals ! i ! nat (cnt ! i)"
    let ?cw1 = "cw[nat (idxs ! i) := ?v]"
    have ok: "i < length idxs \<and> i < length vals \<and> 0 \<le> cnt ! i \<and>
            nat (cnt ! i) < length (vals ! i) \<and> 0 \<le> idxs ! i \<and> nat (idxs ! i) < length cw"
      using i "1.prems" by simp
    have step: "patch_codewords idxs vals cnt i cw = patch_codewords idxs vals cnt (i + 1) ?cw1"
      using True ok by (subst patch_codewords.simps) simp
    have a: "i + 1 \<le> length idxs" using i by simp
    have b: "\<forall>j < length idxs. 0 \<le> idxs ! j \<and> nat (idxs ! j) < length ?cw1"
      using "1.prems"(2) by simp
    have c: "\<forall>j < i + 1. ?cw1 ! nat (idxs ! j) = vals ! j ! nat (cnt ! j)"
    proof (intro allI impI)
      fix j assume j: "j < i + 1"
      show "?cw1 ! nat (idxs ! j) = vals ! j ! nat (cnt ! j)"
      proof (cases "j = i")
        case True
        then show ?thesis using ok by simp
      next
        case False
        then have ji: "j < i" using j by simp
        then have "idxs ! j \<noteq> idxs ! i"
          using i "1.prems"(7) by (simp add: nth_eq_iff_index_eq)
        moreover have "0 \<le> idxs ! j" "0 \<le> idxs ! i"
          using "1.prems"(2) i ji by auto
        ultimately have "nat (idxs ! j) \<noteq> nat (idxs ! i)" by simp
        then show ?thesis using "1.prems"(3) ji by simp
      qed
    qed
    from "1.IH" [OF True ok a b c "1.prems"(4-7)]
    show ?thesis unfolding step by simp
  qed
qed

lemma next_combination_spec:
  assumes "\<forall>vs \<in> set vals. vs \<noteq> []"
  shows "i < length vals \<Longrightarrow> length pre = i \<Longrightarrow>
    k < prod_list (drop i (map length vals)) \<Longrightarrow>
    next_combination vals i (pre @ mixed_radix (drop i (map length vals)) k) =
      Some (if Suc k < prod_list (drop i (map length vals))
            then Inr (pre @ mixed_radix (drop i (map length vals)) (Suc k))
            else Inl ChecksumError)"
proof (induction "length vals - i" arbitrary: i pre k)
  case 0
  then show ?case by simp
next
  case (Suc m)
  let ?sizes = "map length vals"
  let ?n = "length (vals ! i)"
  let ?rest = "drop (Suc i) ?sizes"
  let ?cnt = "pre @ mixed_radix (drop i ?sizes) k"
  have i: "i < length vals" by (rule Suc.prems(1))
  have d: "drop i ?sizes = ?n # ?rest"
    using i by (simp add: Cons_nth_drop_Suc [symmetric])
  have n: "0 < ?n" using assms i by simp
  have k: "k < ?n * prod_list ?rest" using Suc.prems(3) unfolding d by simp
  have len: "length ?cnt = length vals" using Suc.prems(2) i by simp
  have cnt_i: "?cnt ! i = int (k mod ?n)"
    using Suc.prems(2) unfolding d by (simp add: nth_append)
  have upd: "?cnt[i := v] = pre @ v # mixed_radix ?rest (k div ?n)" for v
    using Suc.prems(2) unfolding d by (simp add: list_update_append)
  have kd: "k div ?n < prod_list ?rest"
    using k n by (simp add: div_less_iff_less_mult mult.commute)
  show ?case
  proof (cases "Suc (k mod ?n) < ?n")
    case True
    have m: "Suc k mod ?n = Suc (k mod ?n)" using True by (simp add: mod_Suc)
    have dv: "Suc k div ?n = k div ?n" using True by (simp add: div_Suc mod_Suc)
    have "Suc k div ?n < prod_list ?rest" using kd dv by simp
    then have lt: "Suc k < ?n * prod_list ?rest"
      using n by (simp add: div_less_iff_less_mult mult.commute)
    have "next_combination vals i ?cnt = Some (Inr (?cnt[i := ?cnt ! i + 1]))"
      using True i len cnt_i by (subst next_combination.simps) simp
    also have "?cnt[i := ?cnt ! i + 1] = pre @ (int (k mod ?n) + 1) # mixed_radix ?rest (k div ?n)"
      using upd [of "?cnt ! i + 1"] cnt_i by simp
    also have "\<dots> = pre @ mixed_radix (drop i ?sizes) (Suc k)"
      unfolding d by (simp add: m dv)
    finally show ?thesis using lt unfolding d by simp
  next
    case False
    have kn: "k mod ?n < ?n" using n by simp
    with False have km: "Suc (k mod ?n) = ?n" by simp
    have m: "Suc k mod ?n = 0" using km by (simp add: mod_Suc)
    have dv: "Suc k div ?n = Suc (k div ?n)" using km by (simp add: div_Suc mod_Suc)
    have iff: "Suc k < ?n * prod_list ?rest \<longleftrightarrow> Suc (k div ?n) < prod_list ?rest"
      using n dv by (metis div_less_iff_less_mult mult.commute)
    have nolt: "\<not> ?cnt ! i < int ?n - 1" using False cnt_i by simp
    show ?thesis
    proof (cases "i = length vals - 1")
      case True
      then have "?rest = []" using i by simp
      then have "\<not> Suc k < ?n * prod_list ?rest" using iff kd by simp
      moreover have "next_combination vals i ?cnt = Some (Inl ChecksumError)"
        using True i len nolt by (subst next_combination.simps) simp
      ultimately show ?thesis unfolding d by simp
    next
      case last: False
      then have i1: "Suc i < length vals" using i by simp
      have step: "next_combination vals i ?cnt = next_combination vals (i + 1) (?cnt[i := 0])"
        using last i len nolt by (subst next_combination.simps) simp
      have m1: "m = length vals - Suc i" using Suc.hyps(2) by simp
      have ih: "next_combination vals (Suc i) ((pre @ [0]) @ mixed_radix ?rest (k div ?n)) =
          Some (if Suc (k div ?n) < prod_list ?rest
                then Inr ((pre @ [0]) @ mixed_radix ?rest (Suc (k div ?n)))
                else Inl ChecksumError)"
        using Suc.hyps(1) [OF m1 i1 _ kd, of "pre @ [0]"] Suc.prems(2) by simp
      have eq: "pre @ mixed_radix (drop i ?sizes) (Suc k) = (pre @ [0]) @ mixed_radix ?rest (Suc (k div ?n))"
        unfolding d by (simp add: m dv)
      have "next_combination vals i ?cnt =
            next_combination vals (Suc i) ((pre @ [0]) @ mixed_radix ?rest (k div ?n))"
        using step upd [of 0] by simp
      also note ih
      finally show ?thesis using iff eq unfolding d by simp
    qed
  qed
qed

lemma calls_enumerate_single:
  assumes "k < prod_list (map length vals)"
    and "\<forall>j < length idxs. cw1 ! nat (idxs ! j) = vals ! j ! nat (mixed_radix (map length vals) k ! j)"
    and "st = ChecksumError \<longrightarrow> Suc k = prod_list (map length vals)"
  shows "calls_enumerate idxs vals k [(cw1, st)] st"
  using assms by (auto simp: calls_enumerate_def)

lemma calls_enumerate_cons:
  assumes "calls_enumerate idxs vals (Suc k) calls status"
    and "\<forall>j < length idxs. cw1 ! nat (idxs ! j) = vals ! j ! nat (mixed_radix (map length vals) k ! j)"
  shows "calls_enumerate idxs vals k ((cw1, ChecksumError) # calls) status"
  unfolding calls_enumerate_def
proof (intro conjI allI impI)
  note a = assms(1) [unfolded calls_enumerate_def]
  show "1 \<le> length ((cw1, ChecksumError) # calls)" by simp
  show "k + length ((cw1, ChecksumError) # calls) \<le> prod_list (map length vals)"
    using a by simp
  show "fst (((cw1, ChecksumError) # calls) ! i) ! nat (idxs ! j) =
        vals ! j ! nat (mixed_radix (map length vals) (k + i) ! j)"
    if "i < length ((cw1, ChecksumError) # calls)" "j < length idxs" for i j
  proof (cases i)
    case 0
    then show ?thesis using assms(2) that by simp
  next
    case (Suc i')
    then show ?thesis using a that by simp
  qed
  show "snd (((cw1, ChecksumError) # calls) ! i) = ChecksumError"
    if "Suc i < length ((cw1, ChecksumError) # calls)" for i
    using a that by (cases i) simp_all
  show "status = snd (last ((cw1, ChecksumError) # calls))"
    using a by auto
  show "k + length ((cw1, ChecksumError) # calls) = prod_list (map length vals)"
    if "status = ChecksumError"
    using a that by simp
qed

lemma while_enumerates:
  fixes decode :: "int list \<Rightarrow> 's \<Rightarrow> (ErrorStatus \<times> int list \<times> 's) option"
  assumes lens: "length vals = length idxs"
    and nonempty: "\<forall>vs \<in> set vals. vs \<noteq> []"
    and dist: "distinct idxs"
    and inrange: "\<forall>idx \<in> set idxs. 0 \<le> idx \<and> nat idx < L"
    and total: "\<forall>cw s. \<exists>st cw' s'. decode cw s = Some (st, cw', s') \<and> length cw' = length cw"
  shows "k < prod_list (map length vals) \<Longrightarrow> prod_list (map length vals) - k \<le> tries \<Longrightarrow>
    length cw = L \<Longrightarrow>
    \<exists>status cw' s' calls'.
      CreateDecoderResultFromAmbiguousValues_while (traced decode) idxs vals tries
        (mixed_radix (map length vals) k) cw (s, calls) = Some (status, cw', s', calls @ calls') \<and>
      CreateDecoderResultFromAmbiguousValues_while decode idxs vals tries
        (mixed_radix (map length vals) k) cw s = Some (status, cw', s') \<and>
      length cw' = L \<and>
      calls_enumerate idxs vals k calls' status"
proof (induction tries arbitrary: k cw s calls)
  case 0
  then show ?case by simp
next
  case (Suc tries)
  let ?sizes = "map length vals"
  let ?N = "prod_list ?sizes"
  let ?cnt = "mixed_radix ?sizes k"
  have pos: "\<forall>n \<in> set ?sizes. 0 < n" using nonempty by auto
  have digits: "\<forall>j < length idxs. 0 \<le> ?cnt ! j \<and> nat (?cnt ! j) < length (vals ! j)"
    using mixed_radix_digit [OF _ pos, of _ k] lens by simp
  have rng: "\<forall>j < length idxs. 0 \<le> idxs ! j \<and> nat (idxs ! j) < length cw"
    using inrange Suc.prems(3) by simp
  from patch_codewords_spec [OF _ lens digits dist, of 0 cw] rng
  obtain cw1 where p: "patch_codewords idxs vals ?cnt 0 cw = Some cw1"
    and l1: "length cw1 = length cw"
    and v1: "\<forall>j < length idxs. cw1 ! nat (idxs ! j) = vals ! j ! nat (?cnt ! j)"
    using lens by auto
  from total obtain st cw2 s2 where d: "decode cw1 s = Some (st, cw2, s2)" and l2: "length cw2 = length cw1"
    by blast
  have td: "traced decode cw1 (s, calls) = Some (st, cw2, s2, calls @ [(cw1, st)])"
    by (simp add: traced_def d)
  have L2: "length cw2 = L" using l1 l2 Suc.prems(3) by simp
  show ?case
  proof (cases "st = ChecksumError")
    case False
    have "calls_enumerate idxs vals k [(cw1, st)] st"
      using calls_enumerate_single [OF Suc.prems(1) v1] False by simp
    then show ?thesis
      using False p d td L2 by simp
  next
    case cs: True
    show ?thesis
    proof (cases "Suc k < ?N")
      case False
      then have last: "Suc k = ?N" using Suc.prems(1) by simp
      have e: "calls_enumerate idxs vals k [(cw1, st)] st"
        using calls_enumerate_single [OF Suc.prems(1) v1] last by simp
      show ?thesis
      proof (cases "?cnt = []")
        case True
        then show ?thesis using cs p d td L2 e by simp
      next
        case False
        then have "0 < length vals" by (cases vals) auto
        from next_combination_spec [OF nonempty this, of "[]" k] Suc.prems(1) last
        have "next_combination vals 0 ?cnt = Some (Inl ChecksumError)" by simp
        then show ?thesis using False cs p d td L2 e by simp
      qed
    next
      case more: True
      then have ne: "?cnt \<noteq> []" by (cases vals) auto
      then have "0 < length vals" by (cases vals) auto
      from next_combination_spec [OF nonempty this, of "[]" k] Suc.prems(1) more
      have nc: "next_combination vals 0 ?cnt = Some (Inr (mixed_radix ?sizes (Suc k)))" by simp
      have t: "?N - Suc k \<le> tries" using Suc.prems(2) by simp
      from Suc.IH [OF more t L2, of s2 "calls @ [(cw1, st)]"]
      obtain status cw' s' calls' where
        r: "CreateDecoderResultFromAmbiguousValues_while (traced decode) idxs vals tries
              (mixed_radix ?sizes (Suc k)) cw2 (s2, calls @ [(cw1, st)]) =
            Some (status, cw', s', (calls @ [(cw1, st)]) @ calls')"
        and u: "CreateDecoderResultFromAmbiguousValues_while decode idxs vals tries
              (mixed_radix ?sizes (Suc k)) cw2 s2 = Some (status, cw', s')"
        and l: "length cw' = L"
        and e: "calls_enumerate idxs vals (Suc k) calls' status"
        by blast
      have "calls_enumerate idxs vals k ((cw1, st) # calls') status"
        using calls_enumerate_cons [OF e v1] cs by simp
      then show ?thesis
        using ne cs p d td nc r u l by simp
    qed
  qed
qed

lemma DecodeCodewords_total:
  assumes "0 \<le> ecLevel" and "ecLevel < 30"
    and "\<forall>cw n er cnt w. length (fst (snd (ec cw n er cnt w))) = length cw"
  shows "\<exists>st cw' rw'. DecodeCodewords ec parser ecLevel erasureArray codec cw rw = Some (st, cw', rw') \<and>
           length cw' = length cw"
proof -
  obtain result w where rw: "rw = (result, w)" by (cases rw)
  have "2 ^ nat (ecLevel + 1) \<le> (2::int) ^ 30"
    using assms(1,2) by (intro power_increasing) auto
  then have sh: "shift_left 1 (ecLevel + 1) = Some (2 ^ nat (ecLevel + 1))"
    using assms(1,2) by (simp add: shift_left_def)
  let ?n = "2 ^ nat (ecLevel + 1) :: int"
  obtain st cw1 cnt w1 where c: "CorrectErrors ec cw erasureArray ?n 0 w = (st, cw1, cnt, w1)"
    by (cases "CorrectErrors ec cw erasureArray ?n 0 w") auto
  have l1: "length cw1 = length cw"
    using c assms(3) [rule_format, of cw ?n erasureArray 0 w]
    by (auto simp: CorrectErrors_def split: if_splits prod.splits)
  obtain st2 cw2 where v: "VerifyCodewordCount cw1 ?n = (st2, cw2)"
    by (cases "VerifyCodewordCount cw1 ?n")
  have l2: "length cw2 = length cw1"
    using v by (auto simp: VerifyCodewordCount_def Let_def split: if_splits)
  obtain st3 r3 w3 where q: "parser cw2 ecLevel codec result w1 = (st3, r3, w3)"
    by (cases "parser cw2 ecLevel codec result w1") auto
  show ?thesis
    unfolding rw using sh c v q l1 l2
    by (simp add: DecodeCodewords_def)
qed

text \<open>
  C4. Let the candidate lists of the ambiguous cells be non-empty with sizes whose product
  is at most 100, the ambiguous indexes distinct positions of the codewords vector, the
  error correction level one for which \<open>1 << (ecLevel + 1)\<close> is defined, and the
  Reed-Solomon decoder one that keeps the length of the vector. Then
  \<open>CreateDecoderResultFromAmbiguousValues\<close> returns, and the calls of \<open>DecodeCodewords\<close> it
  makes are these: at least one and at most as many as there are combinations; the
  \<open>i\<close>-th call is given codewords that carry, at every ambiguous index, the candidate that
  combination \<open>i\<close> of the mixed-radix counter (position 0 least significant) selects; these
  combinations differ from one another, so none is tried twice; every call but the last
  returned \<open>ChecksumError\<close>; the status returned is the last call's; it is \<open>ChecksumError\<close>
  only when every combination has been tried; and with no ambiguous cell there is exactly
  one call.
\<close>

theorem CreateDecoderResultFromAmbiguousValues_enumerates:
  assumes "length ambiguousIndexValues = length ambiguousIndexes"
    and "\<forall>vs \<in> set ambiguousIndexValues. vs \<noteq> []"
    and "distinct ambiguousIndexes"
    and "\<forall>idx \<in> set ambiguousIndexes. 0 \<le> idx \<and> nat idx < length codewords"
    and "prod_list (map length ambiguousIndexValues) \<le> 100"
    and "0 \<le> ecLevel" and "ecLevel < 30"
    and "\<forall>cw n er cnt w. length (fst (snd (ec cw n er cnt w))) = length cw"
  shows "\<exists>status codewords' rw' calls.
      CreateDecoderResultFromAmbiguousValues_with
        (traced (DecodeCodewords ec parser ecLevel erasureArray codec))
        codewords ambiguousIndexes ambiguousIndexValues (rw, []) =
          Some (status, codewords', rw', calls) \<and>
      CreateDecoderResultFromAmbiguousValues ec parser ecLevel codewords erasureArray
        ambiguousIndexes ambiguousIndexValues codec rw = Some (status, codewords', rw') \<and>
      1 \<le> length calls \<and> length calls \<le> prod_list (map length ambiguousIndexValues) \<and>
      (\<forall>i < length calls. \<forall>j < length ambiguousIndexes.
         fst (calls ! i) ! nat (ambiguousIndexes ! j) =
           ambiguousIndexValues ! j ! nat (mixed_radix (map length ambiguousIndexValues) i ! j)) \<and>
      (\<forall>i < length calls. \<forall>i' < length calls. i \<noteq> i' \<longrightarrow>
         mixed_radix (map length ambiguousIndexValues) i \<noteq>
         mixed_radix (map length ambiguousIndexValues) i') \<and>
      (\<forall>i. Suc i < length calls \<longrightarrow> snd (calls ! i) = ChecksumError) \<and>
      status = snd (last calls) \<and>
      (status = ChecksumError \<longrightarrow> length calls = prod_list (map length ambiguousIndexValues)) \<and>
      (ambiguousIndexes = [] \<longrightarrow> length calls = 1)"
proof -
  let ?sizes = "map length ambiguousIndexValues"
  let ?N = "prod_list ?sizes"
  let ?dec = "DecodeCodewords ec parser ecLevel erasureArray codec"
  have "0 \<notin> set ?sizes" using assms(2) by auto
  then have "?N \<noteq> 0" unfolding prod_list_zero_iff .
  then have N: "0 < ?N" by simp
  have total: "\<forall>cw s. \<exists>st cw' s'. ?dec cw s = Some (st, cw', s') \<and> length cw' = length cw"
    by (intro allI) (rule DecodeCodewords_total [OF assms(6,7,8)])
  have start: "replicate (length ambiguousIndexes) 0 = mixed_radix ?sizes 0"
    using assms(1) by (simp add: mixed_radix_0)
  from while_enumerates [OF assms(1,2,3,4) total N _ refl, of 100 rw "[]"] assms(5)
  obtain status cw' s' calls where
    t: "CreateDecoderResultFromAmbiguousValues_while (traced ?dec) ambiguousIndexes
          ambiguousIndexValues 100 (mixed_radix ?sizes 0) codewords (rw, []) =
        Some (status, cw', s', calls)"
    and u: "CreateDecoderResultFromAmbiguousValues_while ?dec ambiguousIndexes
          ambiguousIndexValues 100 (mixed_radix ?sizes 0) codewords rw = Some (status, cw', s')"
    and e: "calls_enumerate ambiguousIndexes ambiguousIndexValues 0 calls status"
    by auto
  note e' = e [unfolded calls_enumerate_def, simplified]
  have inj: "\<forall>i < length calls. \<forall>i' < length calls. i \<noteq> i' \<longrightarrow>
         mixed_radix ?sizes i \<noteq> mixed_radix ?sizes i'"
  proof (intro allI impI)
    fix i i' assume "i < length calls" "i' < length calls" "i \<noteq> i'"
    then show "mixed_radix ?sizes i \<noteq> mixed_radix ?sizes i'"
      using mixed_radix_inj [of ?sizes i i'] e' by auto
  qed
  have one: "ambiguousIndexes = [] \<longrightarrow> length calls = 1"
    using e' assms(1) by auto
  show ?thesis
    unfolding CreateDecoderResultFromAmbiguousValues_def
      CreateDecoderResultFromAmbiguousValues_with_def start
    using t u e' inj one by (intro exI [of _ status] exI [of _ cw'] exI [of _ s'] exI [of _ calls]) simp
qed

theorem CreateDecoderResultFromAmbiguousValues_enumerates_witness:
  "CreateDecoderResultFromAmbiguousValues_with
     (traced (DecodeCodewords
        (\<lambda>cw n er cnt w. (cw ! 1 = 5 \<and> cw ! 2 = 9, cw, cnt, Suc w))
        (\<lambda>cw l c r w. (NoError, r\<lparr>content := cw\<rparr>, w)) 1 [] ()))
     [6, 0, 0, 3, 4, 5] [1, 2] [[5, 7], [8, 9]]
     ((\<lparr>content = [], errorsCorrected = 0, erasures = 0\<rparr>, 0::nat), [])
   = Some (NoError, [6, 5, 9, 3, 4, 5],
        (\<lparr>content = [6, 5, 9, 3, 4, 5], errorsCorrected = 0, erasures = 0\<rparr>, 3),
        [([6, 5, 8, 3, 4, 5], ChecksumError), ([6, 7, 8, 3, 4, 5], ChecksumError),
         ([6, 5, 9, 3, 4, 5], NoError)])
   \<and> CreateDecoderResultFromAmbiguousValues
        (\<lambda>cw n er cnt w. (cw ! 1 = 5 \<and> cw ! 2 = 9, cw, cnt, Suc w))
        (\<lambda>cw l c r w. (NoError, r\<lparr>content := cw\<rparr>, w)) 1
        [6, 0, 0, 3, 4, 5] [] [1, 2] [[5, 7], [8, 9]] ()
        (\<lparr>content = [], errorsCorrected = 0, erasures = 0\<rparr>, 0::nat)
   = Some (NoError, [6, 5, 9, 3, 4, 5],
        \<lparr>content = [6, 5, 9, 3, 4, 5], errorsCorrected = 0, erasures = 0\<rparr>, 3)"
proof -
  have t: "CreateDecoderResultFromAmbiguousValues_with
     (traced (DecodeCodewords
        (\<lambda>cw n er cnt w. (cw ! 1 = 5 \<and> cw ! 2 = 9, cw, cnt, Suc w))
        (\<lambda>cw l c r w. (NoError, r\<lparr>content := cw\<rparr>, w)) 1 [] ()))
     [6, 0, 0, 3, 4, 5] [1, 2] [[5, 7], [8, 9]]
     ((\<lparr>content = [], errorsCorrected = 0, erasures = 0\<rparr>, 0::nat), [])
   = Some (NoError, [6, 5, 9, 3, 4, 5],
        (\<lparr>content = [6, 5, 9, 3, 4, 5], errorsCorrected = 0, erasures = 0\<rparr>, 3),
        [([6, 5, 8, 3, 4, 5], ChecksumError), ([6, 7, 8, 3, 4, 5], ChecksumError),
         ([6, 5, 9, 3, 4, 5], NoError)])"
    by code_simp
  show ?thesis
    using t
      CreateDecoderResultFromAmbiguousValues_enumerates
        [where ambiguousIndexValues = "[[5, 7], [8, 9]]" and ambiguousIndexes = "[1, 2]"
          and codewords = "[6, 0, 0, 3, 4, 5]" and ecLevel = 1
          and ec = "\<lambda>cw n er cnt w. (cw ! 1 = 5 \<and> cw ! 2 = 9, cw, cnt, Suc w)"
          and parser = "\<lambda>cw l c r w. (NoError, r\<lparr>content := cw\<rparr>, w)"
          and erasureArray = "[]" and codec = "()"
          and rw = "(\<lparr>content = [], errorsCorrected = 0, erasures = 0\<rparr>, 0::nat)"]
    by simp
qed

end
